theory Spec2Isabelle
  imports Main "HOL-Library.Word"
begin

section \<open>Python values used by \<open>scripts/gen_vectors.py\<close>\<close>

text \<open>
  A Python \<open>bytes\<close> object is a list of 8-bit words. A Python \<open>str\<close> is a HOL
  \<open>string\<close> holding the text's UTF-8 encoding, so ASCII text is represented by itself.
  An uncaught exception is the left summand of the result; the script has no
  \<open>try\<close>, so every exception ends the run (traceback, exit status 1).
\<close>

type_synonym byte = "8 word"

datatype py_error =
    ValueError
  | AssertionError
  | RuntimeError string
  | OSError

text \<open>The line feed character, Python's \<open>"\n"\<close>.\<close>

definition LF :: char where
  "LF = CHR 0x0A"

subsection \<open>\<open>bytes.hex()\<close> and \<open>bytes.fromhex()\<close>\<close>

definition hexdigits :: string where
  "hexdigits = ''0123456789abcdef''"

definition hex_byte :: "byte \<Rightarrow> string" where
  "hex_byte b = [hexdigits ! (unat b div 16), hexdigits ! (unat b mod 16)]"

text \<open>\<open>bs.hex()\<close>: two lowercase hexadecimal digits per byte.\<close>

definition hex :: "byte list \<Rightarrow> string" where
  "hex bs = concat (map hex_byte bs)"

definition hex_val :: "char \<Rightarrow> nat option" where
  "hex_val c =
     (let n = (of_char c :: nat) in
      if 48 \<le> n \<and> n \<le> 57 then Some (n - 48)
      else if 97 \<le> n \<and> n \<le> 102 then Some (n - 87)
      else if 65 \<le> n \<and> n \<le> 70 then Some (n - 55)
      else None)"

text \<open>ASCII whitespace as \<open>bytes.fromhex\<close> skips it: space, \<open>\t \n \v \f \r\<close>.\<close>

definition ascii_space :: "char \<Rightarrow> bool" where
  "ascii_space c = (let n = (of_char c :: nat) in n = 32 \<or> (9 \<le> n \<and> n \<le> 13))"

text \<open>
  \<open>bytes.fromhex(s)\<close>: whitespace is skipped between bytes, never inside a pair of
  digits; anything else that is not a pair of hexadecimal digits raises \<open>ValueError\<close>
  (\<open>None\<close> here).
\<close>

fun fromhex :: "string \<Rightarrow> byte list option" where
  "fromhex [] = Some []"
| "fromhex (c # cs) =
     (if ascii_space c then fromhex cs
      else (case cs of
              [] \<Rightarrow> None
            | d # ds \<Rightarrow>
                (case hex_val c of
                   None \<Rightarrow> None
                 | Some hi \<Rightarrow>
                     (case hex_val d of
                        None \<Rightarrow> None
                      | Some lo \<Rightarrow>
                          (case fromhex ds of
                             None \<Rightarrow> None
                           | Some bs \<Rightarrow> Some (of_nat (hi * 16 + lo) # bs))))))"

subsection \<open>\<open>bytes.decode(errors="ignore")\<close>\<close>

definition is_cont :: "byte \<Rightarrow> bool" where
  "is_cont b = (0x80 \<le> b \<and> b < 0xC0)"

text \<open>
  Whether \<open>b2\<close> may follow the lead byte \<open>b\<close> of a three- or four-byte sequence:
  a continuation byte that gives no overlong form, no surrogate and nothing past
  U+10FFFF.
\<close>

definition second_ok :: "byte \<Rightarrow> byte \<Rightarrow> bool" where
  "second_ok b b2 =
     (is_cont b2
      \<and> \<not> (b = 0xE0 \<and> b2 < 0xA0) \<and> \<not> (b = 0xED \<and> 0xA0 \<le> b2)
      \<and> \<not> (b = 0xF0 \<and> b2 < 0x90) \<and> \<not> (b = 0xF4 \<and> 0x90 \<le> b2))"

definition chars_of :: "byte list \<Rightarrow> string" where
  "chars_of bs = map (\<lambda>b. char_of (unat b)) bs"

text \<open>
  The UTF-8 decoder with the \<open>ignore\<close> error handler: a well-formed sequence is kept,
  an invalid start byte is dropped, a sequence broken by a wrong continuation byte is
  dropped up to that byte, and a sequence cut off by the end of the data is dropped.
\<close>

fun decode_ignore :: "byte list \<Rightarrow> string" where
  "decode_ignore [] = []"
| "decode_ignore (b # bs) =
     (if b < 0x80 then chars_of [b] @ decode_ignore bs
      else if b < 0xC2 then decode_ignore bs
      else if b < 0xE0 then
        (case bs of
           [] \<Rightarrow> []
         | b2 # r \<Rightarrow>
             if is_cont b2 then chars_of [b, b2] @ decode_ignore r
             else decode_ignore bs)
      else if b < 0xF0 then
        (case bs of
           [] \<Rightarrow> []
         | b2 # r \<Rightarrow>
             if \<not> second_ok b b2 then decode_ignore bs
             else (case r of
                     [] \<Rightarrow> []
                   | b3 # r' \<Rightarrow>
                       if is_cont b3 then chars_of [b, b2, b3] @ decode_ignore r'
                       else decode_ignore r))
      else if b < 0xF5 then
        (case bs of
           [] \<Rightarrow> []
         | b2 # r \<Rightarrow>
             if \<not> second_ok b b2 then decode_ignore bs
             else (case r of
                     [] \<Rightarrow> []
                   | b3 # r' \<Rightarrow>
                       if \<not> is_cont b3 then decode_ignore r
                       else (case r' of
                               [] \<Rightarrow> []
                             | b4 # r'' \<Rightarrow>
                                 if is_cont b4
                                 then chars_of [b, b2, b3, b4] @ decode_ignore r''
                                 else decode_ignore r')))
      else decode_ignore bs)"

subsection \<open>\<open>int(s)\<close> and \<open>str(n)\<close>\<close>

text \<open>
  \<open>int(s)\<close> on ASCII text: surrounding whitespace is stripped, one sign is allowed,
  then decimal digits, with single underscores allowed between digits. Text outside
  ASCII is rejected by this model, and the interpreter's limit on the number of digits
  is not part of it.
\<close>

definition py_isspace :: "char \<Rightarrow> bool" where
  "py_isspace c =
     (let n = (of_char c :: nat) in n = 32 \<or> (9 \<le> n \<and> n \<le> 13) \<or> (28 \<le> n \<and> n \<le> 31))"

definition strip :: "string \<Rightarrow> string" where
  "strip s = rev (dropWhile py_isspace (rev (dropWhile py_isspace s)))"

definition digit_val :: "char \<Rightarrow> nat option" where
  "digit_val c =
     (let n = (of_char c :: nat) in if 48 \<le> n \<and> n \<le> 57 then Some (n - 48) else None)"

fun py_digits :: "nat \<Rightarrow> string \<Rightarrow> nat option" where
  "py_digits acc [] = Some acc"
| "py_digits acc (c # cs) =
     (if c = CHR ''_'' then
        (case cs of
           [] \<Rightarrow> None
         | d # ds \<Rightarrow>
             (case digit_val d of
                None \<Rightarrow> None
              | Some v \<Rightarrow> py_digits (10 * acc + v) ds))
      else
        (case digit_val c of
           None \<Rightarrow> None
         | Some v \<Rightarrow> py_digits (10 * acc + v) cs))"

definition py_number :: "string \<Rightarrow> nat option" where
  "py_number s =
     (case s of
        [] \<Rightarrow> None
      | c # cs \<Rightarrow> (case digit_val c of None \<Rightarrow> None | Some v \<Rightarrow> py_digits v cs))"

definition py_int :: "string \<Rightarrow> py_error + int" where
  "py_int s =
     (let t = strip s;
          neg = (case t of [] \<Rightarrow> False | c # _ \<Rightarrow> c = CHR ''-'');
          body = (case t of
                    [] \<Rightarrow> []
                  | c # cs \<Rightarrow> if c = CHR ''-'' \<or> c = CHR ''+'' then cs else t)
      in case py_number body of
           None \<Rightarrow> Inl ValueError
         | Some v \<Rightarrow> Inr (if neg then - int v else int v))"

text \<open>\<open>str(n)\<close> for a list length \<open>n\<close>: its decimal digits.\<close>

fun py_str :: "nat \<Rightarrow> string" where
  "py_str n =
     (if n < 10 then [hexdigits ! n]
      else py_str (n div 10) @ [hexdigits ! (n mod 10)])"

declare py_str.simps [simp del]

text \<open>\<open>sep.join(xs)\<close>.\<close>

fun join :: "string \<Rightarrow> string list \<Rightarrow> string" where
  "join sep [] = []"
| "join sep [x] = x"
| "join sep (x # y # ys) = x @ sep @ join sep (y # ys)"

section \<open>The world outside the script\<close>

text \<open>What \<open>subprocess.run\<close> returns: exit status and the two captured pipes.\<close>

record completed_process =
  returncode :: int
  stdout :: "byte list"
  stderr :: "byte list"

text \<open>
  The script's effects are made explicit in a \<open>world\<close>.
  \<^item> \<open>subprocess_run i args inp\<close> is what the \<open>i\<close>-th call of \<open>subprocess.run\<close> in
    this world does, given the argument list \<open>args\<close> and the standard input \<open>inp\<close>:
    the process cannot be started (\<open>Inl\<close>, an exception), or it completes. Nothing is
    assumed about it: it need not compute AES, nor answer the same way twice.
  \<^item> \<open>urandom\<close> is the stream of bytes the operating system's random source delivers,
    \<open>drawn\<close> how many of them have been consumed.
  \<^item> \<open>can_open path\<close> says whether \<open>open(path, "w")\<close> succeeds.
  \<^item> \<open>calls\<close> logs every call of \<open>subprocess.run\<close>, with its argument list and its
    standard input; \<open>files\<close> maps a path to the text written to it in text mode;
    \<open>writes\<close> logs every \<open>f.write\<close>, \<open>printed\<close> every \<open>print\<close>.
  A failure of \<open>f.write\<close> or of closing the file, and a failure of the random source,
  are outside the model.
\<close>

record world =
  subprocess_run :: "nat \<Rightarrow> string list \<Rightarrow> byte list \<Rightarrow> py_error + completed_process"
  urandom :: "nat \<Rightarrow> byte"
  can_open :: "string \<Rightarrow> bool"
  calls :: "(string list \<times> byte list) list"
  drawn :: nat
  files :: "string \<Rightarrow> string option"
  writes :: "(string \<times> string) list"
  printed :: "string list"

text \<open>\<open>secrets.token_bytes(k)\<close>: the next \<open>k\<close> bytes of the random source.\<close>

definition token_bytes :: "nat \<Rightarrow> world \<Rightarrow> byte list \<times> world" where
  "token_bytes k w =
     (map (urandom w) [drawn w ..< drawn w + k], w\<lparr>drawn := drawn w + k\<rparr>)"

text \<open>\<open>open(path, "w")\<close> creates or truncates the file; \<open>f.write(text)\<close> appends.\<close>

definition open_w :: "string \<Rightarrow> world \<Rightarrow> (py_error + unit) \<times> world" where
  "open_w path w =
     (if can_open w path then (Inr (), w\<lparr>files := (files w)(path \<mapsto> [])\<rparr>)
      else (Inl OSError, w))"

definition file_write :: "string \<Rightarrow> string \<Rightarrow> world \<Rightarrow> world" where
  "file_write path text w =
     w\<lparr>files := (files w)(path \<mapsto> (case files w path of None \<Rightarrow> text | Some old \<Rightarrow> old @ text)),
       writes := writes w @ [(path, text)]\<rparr>"

definition print :: "string \<Rightarrow> world \<Rightarrow> world" where
  "print msg w = w\<lparr>printed := printed w @ [msg]\<rparr>"

section \<open>The oracle adapter\<close>

definition openssl_args :: "string \<Rightarrow> string list" where
  "openssl_args key_hex =
     [''openssl'', ''enc'', ''-aes-128-ecb'', ''-K'', key_hex, ''-nosalt'', ''-nopad'']"

text \<open>
  \<open>openssl_aes128_ecb_encrypt(key_hex, pt_hex)\<close>, lines 4 to 23, with assertions
  enabled (the interpreter's default).
\<close>

definition openssl_aes128_ecb_encrypt ::
  "string \<Rightarrow> string \<Rightarrow> world \<Rightarrow> (py_error + string) \<times> world" where
  "openssl_aes128_ecb_encrypt key_hex pt_hex w =
     (case fromhex key_hex of
        None \<Rightarrow> (Inl ValueError, w)
      | Some key \<Rightarrow>
     (case fromhex pt_hex of
        None \<Rightarrow> (Inl ValueError, w)
      | Some pt \<Rightarrow>
     if \<not> (length key = 16 \<and> length pt = 16) then (Inl AssertionError, w)
     else
       let args = openssl_args key_hex;
           w' = w\<lparr>calls := calls w @ [(args, pt)]\<rparr>
       in (case subprocess_run w (length (calls w)) args pt of
             Inl e \<Rightarrow> (Inl e, w')
           | Inr p \<Rightarrow>
               if returncode p \<noteq> 0
               then (Inl (RuntimeError (''OpenSSL failed:'' @ [LF] @ decode_ignore (stderr p))), w')
               else
                 let ct = stdout p
                 in if length ct \<noteq> 16 then (Inl AssertionError, w')
                    else (Inr (hex ct), w'))))"

section \<open>The vector generator\<close>

definition kat_key :: string where
  "kat_key = ''000102030405060708090a0b0c0d0e0f''"

definition kat_pt :: string where
  "kat_pt = ''00112233445566778899aabbccddeeff''"

text \<open>The f-string \<open>f"{key_hex} {pt_hex} {ct_hex}"\<close>.\<close>

definition vector_line :: "string \<Rightarrow> string \<Rightarrow> string \<Rightarrow> string" where
  "vector_line key_hex pt_hex ct_hex = key_hex @ '' '' @ pt_hex @ '' '' @ ct_hex"

text \<open>
  The loop of lines 37 to 41, \<open>k\<close> iterations left: two draws, one oracle call, one
  line appended; an exception leaves the loop at once.
\<close>

fun gen_loop :: "nat \<Rightarrow> string list \<Rightarrow> world \<Rightarrow> (py_error + string list) \<times> world" where
  "gen_loop 0 lines w = (Inr lines, w)"
| "gen_loop (Suc k) lines w =
     (let (kb, w1) = token_bytes 16 w;
          key_hex = hex kb;
          (pb, w2) = token_bytes 16 w1;
          pt_hex = hex pb
      in case openssl_aes128_ecb_encrypt key_hex pt_hex w2 of
           (Inl e, w3) \<Rightarrow> (Inl e, w3)
         | (Inr ct_hex, w3) \<Rightarrow> gen_loop k (lines @ [vector_line key_hex pt_hex ct_hex]) w3)"

text \<open>Line 26: \<open>n = int(sys.argv[1]) if len(sys.argv) > 1 else 20\<close>.\<close>

definition arg_n :: "string list \<Rightarrow> py_error + int" where
  "arg_n argv = (if length argv > 1 then py_int (argv ! 1) else Inr 20)"

text \<open>Line 27: \<open>out_path = sys.argv[2] if len(sys.argv) > 2 else "vectors.txt"\<close>.\<close>

definition arg_out_path :: "string list \<Rightarrow> string" where
  "arg_out_path argv = (if length argv > 2 then argv ! 2 else ''vectors.txt'')"

text \<open>
  Lines 29 to 41 of \<open>main()\<close>: the known-answer vector, then the loop.
\<close>

definition generate_lines :: "int \<Rightarrow> world \<Rightarrow> (py_error + string list) \<times> world" where
  "generate_lines n w =
     (case openssl_aes128_ecb_encrypt kat_key kat_pt w of
        (Inl e, w1) \<Rightarrow> (Inl e, w1)
      | (Inr kat_ct, w1) \<Rightarrow> gen_loop (nat (n - 1)) [vector_line kat_key kat_pt kat_ct] w1)"

text \<open>
  \<open>main()\<close>, lines 25 to 46, with \<open>sys.argv\<close> as a parameter. \<open>range(n - 1)\<close> has
  \<open>nat (n - 1)\<close> elements, none when \<open>n \<le> 1\<close>.
\<close>

definition main :: "string list \<Rightarrow> world \<Rightarrow> (py_error + unit) \<times> world" where
  "main argv w =
     (case arg_n argv of
        Inl e \<Rightarrow> (Inl e, w)
      | Inr n \<Rightarrow>
     let out_path = arg_out_path argv
     in (case generate_lines n w of
           (Inl e, w2) \<Rightarrow> (Inl e, w2)
         | (Inr lines, w2) \<Rightarrow>
     (case open_w out_path w2 of
        (Inl e, w3) \<Rightarrow> (Inl e, w3)
      | (Inr _, w3) \<Rightarrow>
          let w4 = file_write out_path (join [LF] lines @ [LF]) w3;
              w5 = print (''Wrote '' @ py_str (length lines) @ '' vectors to '' @ out_path) w4
          in (Inr (), w5))))"

section \<open>Notions the statements use\<close>

text \<open>A field of the output: exactly 32 lowercase hexadecimal digits.\<close>

definition hex_field :: "string \<Rightarrow> bool" where
  "hex_field s = (length s = 32 \<and> list_all (\<lambda>c. c \<in> set hexdigits) s)"

text \<open>
  A line of the output, without its line feed: three fields separated by single spaces,
  98 characters in all.
\<close>

definition is_vector_line :: "string \<Rightarrow> bool" where
  "is_vector_line l =
     (length l = 98
      \<and> hex_field (take 32 l) \<and> l ! 32 = CHR '' ''
      \<and> hex_field (take 32 (drop 33 l)) \<and> l ! 65 = CHR '' ''
      \<and> hex_field (drop 66 l))"

text \<open>
  The 16 bytes the random source delivers from position \<open>pos\<close> on, and their
  hexadecimal form: the text of a key or a plaintext drawn there.
\<close>

definition random_block :: "world \<Rightarrow> nat \<Rightarrow> byte list" where
  "random_block w pos = map (urandom w) [pos ..< pos + 16]"

definition random_hex :: "world \<Rightarrow> nat \<Rightarrow> string" where
  "random_hex w pos = hex (random_block w pos)"

text \<open>
  The oracle call made for the random vector drawn at position \<open>pos\<close>: the key in
  hexadecimal on the command line, the plaintext as bytes on standard input.
\<close>

definition random_call :: "world \<Rightarrow> nat \<Rightarrow> string list \<times> byte list" where
  "random_call w pos = (openssl_args (random_hex w pos), random_block w (pos + 16))"

text \<open>The known-answer plaintext and key as bytes, as \<open>bytes.fromhex\<close> decodes them.\<close>

definition kat_pt_bytes :: "byte list" where
  "kat_pt_bytes =
     [0x00, 0x11, 0x22, 0x33, 0x44, 0x55, 0x66, 0x77, 0x88, 0x99, 0xaa, 0xbb, 0xcc, 0xdd, 0xee, 0xff]"

definition kat_key_bytes :: "byte list" where
  "kat_key_bytes =
     [0x00, 0x01, 0x02, 0x03, 0x04, 0x05, 0x06, 0x07, 0x08, 0x09, 0x0a, 0x0b, 0x0c, 0x0d, 0x0e, 0x0f]"

text \<open>
  An oracle that always answers: every process exits with status 0 and writes 16 bytes.
\<close>

definition oracle_ok :: "world \<Rightarrow> bool" where
  "oracle_ok w =
     (\<forall>i args inp. \<exists>p. subprocess_run w i args inp = Inr p
                       \<and> returncode p = 0 \<and> length (stdout p) = 16)"

section \<open>Example worlds\<close>

text \<open>
  Oracles for the examples: one that returns its input as the ciphertext (status 0, 16
  bytes, but not AES), one that exits with status 1 and a message, one that returns 15
  bytes, and one that answers the first call and fails from the second on.
\<close>

definition echo_process :: "nat \<Rightarrow> string list \<Rightarrow> byte list \<Rightarrow> py_error + completed_process" where
  "echo_process i args inp = Inr \<lparr>returncode = 0, stdout = inp, stderr = []\<rparr>"

definition failing_process :: "nat \<Rightarrow> string list \<Rightarrow> byte list \<Rightarrow> py_error + completed_process" where
  "failing_process i args inp = Inr \<lparr>returncode = 1, stdout = [], stderr = [0x62, 0x61, 0x64, 0x0A]\<rparr>"

definition short_process :: "nat \<Rightarrow> string list \<Rightarrow> byte list \<Rightarrow> py_error + completed_process" where
  "short_process i args inp = Inr \<lparr>returncode = 0, stdout = take 15 inp, stderr = []\<rparr>"

definition flaky_process :: "nat \<Rightarrow> string list \<Rightarrow> byte list \<Rightarrow> py_error + completed_process" where
  "flaky_process i args inp = (if i = 0 then echo_process i args inp else failing_process i args inp)"

text \<open>
  A fresh world around an oracle: the random source delivers the bytes 0, 1, 2, ...,
  every file can be opened, nothing has happened yet.
\<close>

definition world_with ::
  "(nat \<Rightarrow> string list \<Rightarrow> byte list \<Rightarrow> py_error + completed_process) \<Rightarrow> world" where
  "world_with run =
     \<lparr>subprocess_run = run, urandom = (\<lambda>i. of_nat i), can_open = (\<lambda>_. True),
      calls = [], drawn = 0, files = Map.empty, writes = [], printed = []\<rparr>"

text \<open>The command line \<open>gen_vectors.py 3 out.txt\<close>.\<close>

definition argv3 :: "string list" where
  "argv3 = [''gen_vectors.py'', ''3'', ''out.txt'']"

section \<open>What two runs can be compared on\<close>

text \<open>
  What a run can observe of an oracle reply: the bytes written to standard output when
  the process exits with status 0, and that it failed otherwise.
\<close>

definition oracle_view :: "py_error + completed_process \<Rightarrow> byte list option" where
  "oracle_view r =
     (case r of Inl e \<Rightarrow> None | Inr p \<Rightarrow> if returncode p = 0 then Some (stdout p) else None)"

text \<open>
  Two worlds have the same oracle behaviour when, counted from now on, the \<open>j\<close>-th
  process gives the same view in both, whatever it is asked.
\<close>

definition same_oracle :: "world \<Rightarrow> world \<Rightarrow> bool" where
  "same_oracle w1 w2 =
     (\<forall>j args inp.
        oracle_view (subprocess_run w1 (length (calls w1) + j) args inp)
          = oracle_view (subprocess_run w2 (length (calls w2) + j) args inp))"

text \<open>Two worlds deliver the same next \<open>k\<close> random bytes.\<close>

definition same_random :: "nat \<Rightarrow> world \<Rightarrow> world \<Rightarrow> bool" where
  "same_random k w1 w2 = (\<forall>i<k. urandom w1 (drawn w1 + i) = urandom w2 (drawn w2 + i))"

text \<open>A result without the detail of the error: \<open>None\<close> for any exception.\<close>

definition outcome :: "py_error + 'a \<Rightarrow> 'a option" where
  "outcome r = (case r of Inl e \<Rightarrow> None | Inr x \<Rightarrow> Some x)"

text \<open>What a run wrote and printed: the entries it added to the two logs.\<close>

definition written_during :: "world \<Rightarrow> world \<Rightarrow> (string \<times> string) list" where
  "written_during w w' = drop (length (writes w)) (writes w')"

definition printed_during :: "world \<Rightarrow> world \<Rightarrow> string list" where
  "printed_during w w' = drop (length (printed w)) (printed w')"

text \<open>
  Two worlds that differ in all a run does not read: \<open>noisy_world\<close> has a history, a
  chattier oracle and other random bytes from position 70 on; \<open>offset_world\<close> is fresh.
  From their own positions on, both deliver the bytes 6, 7, 8, ... for the next 64 draws.
\<close>

definition noisy_process :: "nat \<Rightarrow> string list \<Rightarrow> byte list \<Rightarrow> py_error + completed_process" where
  "noisy_process i args inp = Inr \<lparr>returncode = 0, stdout = inp, stderr = [0x21]\<rparr>"

definition noisy_world :: world where
  "noisy_world =
     \<lparr>subprocess_run = noisy_process,
      urandom = (\<lambda>i. if i < 70 then of_nat i else 0xFF),
      can_open = (\<lambda>_. True),
      calls = [([''true''], [])], drawn = 6,
      files = [''old.txt'' \<mapsto> ''x''], writes = [(''old.txt'', ''x'')], printed = [''hello'']\<rparr>"

definition offset_world :: world where
  "offset_world =
     \<lparr>subprocess_run = echo_process, urandom = (\<lambda>i. of_nat (i + 6)), can_open = (\<lambda>_. True),
      calls = [], drawn = 0, files = Map.empty, writes = [], printed = []\<rparr>"

text \<open>Command lines asking for one vector and for none.\<close>

definition argv1 :: "string list" where
  "argv1 = [''gen_vectors.py'', ''1'', ''out.txt'']"

definition argv0 :: "string list" where
  "argv0 = [''gen_vectors.py'', ''0'', ''out.txt'']"

section \<open>Hexadecimal text\<close>

lemma length_hexdigits: "length hexdigits = 16"
  by (simp add: hexdigits_def)

lemma length_hex_byte: "length (hex_byte b) = 2"
  by (simp add: hex_byte_def)

lemma length_hex: "length (hex bs) = 2 * length bs"
  by (induction bs) (simp_all add: hex_def length_hex_byte)

lemma unat_byte_div16: "unat (b :: byte) div 16 < 16"
proof -
  have "unat b < 2 ^ LENGTH(8)" by (rule unsigned_less)
  then have "unat b < 256" by simp
  then show ?thesis by simp
qed

lemma set_hex_byte: "set (hex_byte b) \<subseteq> set hexdigits"
  using unat_byte_div16 [of b] by (simp add: hex_byte_def length_hexdigits)

lemma set_hex: "set (hex bs) \<subseteq> set hexdigits"
  using set_hex_byte by (induction bs) (auto simp: hex_def)

lemma hex_field_hex: "length bs = 16 \<Longrightarrow> hex_field (hex bs)"
  using set_hex [of bs] by (auto simp: hex_field_def length_hex list_all_iff)

lemma hex_field_kat: "hex_field kat_key" "hex_field kat_pt"
  by (simp_all add: hex_field_def kat_key_def kat_pt_def hexdigits_def)

lemma is_vector_line_vector_line:
  "hex_field k \<Longrightarrow> hex_field p \<Longrightarrow> hex_field c \<Longrightarrow> is_vector_line (vector_line k p c)"
  by (simp add: is_vector_line_def vector_line_def hex_field_def nth_append)

lemma space_not_hex: "CHR '' '' \<notin> set hexdigits" "LF \<notin> set hexdigits"
  by (simp_all add: hexdigits_def LF_def)

text \<open>Decoding undoes encoding.\<close>

lemma hexdigit_props:
  assumes "n < 16"
  shows "hex_val (hexdigits ! n) = Some n" and "\<not> ascii_space (hexdigits ! n)"
proof -
  from assms have n: "n \<in> {0, 1, 2, 3, 4, 5, 6, 7, 8, 9, 10, 11, 12, 13, 14, 15}"
    by (simp add: insert_iff) arith
  from n show "hex_val (hexdigits ! n) = Some n"
    by (auto simp: hexdigits_def hex_val_def)
  from n show "\<not> ascii_space (hexdigits ! n)"
    by (auto simp: hexdigits_def ascii_space_def)
qed

lemma unat_byte_mod16: "unat (b :: byte) mod 16 < 16"
  by simp

lemma byte_of_nibbles: "(of_nat (unat (b :: byte) div 16 * 16 + unat b mod 16) :: byte) = b"
  by simp

lemma fromhex_hex_byte:
  "fromhex (hex_byte b @ s) = map_option ((#) b) (fromhex s)"
  using hexdigit_props [OF unat_byte_div16 [of b]] hexdigit_props [OF unat_byte_mod16 [of b]]
  by (simp add: hex_byte_def byte_of_nibbles split: option.splits)

lemma fromhex_hex: "fromhex (hex bs) = Some bs"
  by (induction bs) (simp_all add: hex_def fromhex_hex_byte)

section \<open>The oracle adapter: what a call does to the world\<close>

lemma adapter_cases:
  "openssl_aes128_ecb_encrypt key_hex pt_hex w = (r, w') \<Longrightarrow>
     (w' = w \<and> isl r) \<or>
     (\<exists>key pt. fromhex key_hex = Some key \<and> fromhex pt_hex = Some pt \<and> length key = 16 \<and> length pt = 16
        \<and> w' = w\<lparr>calls := calls w @ [(openssl_args key_hex, pt)]\<rparr>)"
  by (auto simp: openssl_aes128_ecb_encrypt_def Let_def split: option.splits if_splits sum.splits)

lemma adapter_success:
  assumes "openssl_aes128_ecb_encrypt key_hex pt_hex w = (Inr c, w')"
  shows "\<exists>key pt p. fromhex key_hex = Some key \<and> fromhex pt_hex = Some pt
           \<and> length key = 16 \<and> length pt = 16
           \<and> subprocess_run w (length (calls w)) (openssl_args key_hex) pt = Inr p
           \<and> returncode p = 0 \<and> length (stdout p) = 16 \<and> c = hex (stdout p)
           \<and> w' = w\<lparr>calls := calls w @ [(openssl_args key_hex, pt)]\<rparr>"
  using assms
  by (auto simp: openssl_aes128_ecb_encrypt_def Let_def split: option.splits if_splits sum.splits)

lemma adapter_success_field:
  "openssl_aes128_ecb_encrypt key_hex pt_hex w = (Inr c, w') \<Longrightarrow> hex_field c"
  by (auto dest!: adapter_success simp: hex_field_hex)

text \<open>The adapter touches nothing but the log of started processes.\<close>

lemma adapter_frame:
  assumes "openssl_aes128_ecb_encrypt key_hex pt_hex w = (r, w')"
  shows "subprocess_run w' = subprocess_run w" "urandom w' = urandom w"
    "can_open w' = can_open w" "drawn w' = drawn w" "files w' = files w"
    "writes w' = writes w" "printed w' = printed w"
  using adapter_cases [OF assms] by auto

section \<open>The loop over the random vectors\<close>

lemma length_random_block: "length (random_block w pos) = 16"
  by (simp add: random_block_def)

lemma hex_field_random_hex: "hex_field (random_hex w pos)"
  by (simp add: random_hex_def hex_field_hex length_random_block)

lemma fromhex_random_hex: "fromhex (random_hex w pos) = Some (random_block w pos)"
  by (simp add: random_hex_def fromhex_hex)

text \<open>One iteration, with the two draws carried out.\<close>

lemma gen_loop_Suc_unfold:
  "gen_loop (Suc k) ls w =
     (case openssl_aes128_ecb_encrypt (random_hex w (drawn w)) (random_hex w (drawn w + 16))
             (w\<lparr>drawn := drawn w + 32\<rparr>) of
        (Inl e, w3) \<Rightarrow> (Inl e, w3)
      | (Inr ct, w3) \<Rightarrow>
          gen_loop k (ls @ [vector_line (random_hex w (drawn w)) (random_hex w (drawn w + 16)) ct]) w3)"
  by (simp add: token_bytes_def random_hex_def random_block_def Let_def add.commute
      cong: sum.case_cong prod.case_cong)

declare gen_loop.simps(2) [simp del]

text \<open>The lines collected so far are only ever appended to.\<close>

lemma gen_loop_acc:
  "gen_loop k ls w =
     (case gen_loop k [] w of
        (Inl e, w') \<Rightarrow> (Inl e, w')
      | (Inr new, w') \<Rightarrow> (Inr (ls @ new), w'))"
proof (induction k arbitrary: ls w)
  case 0
  show ?case by simp
next
  case (Suc k)
  show ?case
    unfolding gen_loop_Suc_unfold
    by (subst (1 2) Suc.IH) (simp split: prod.splits sum.splits)
qed

text \<open>The loop changes nothing but the process log and the position in the random source.\<close>

lemma gen_loop_frame:
  "gen_loop k ls w = (r, w') \<Longrightarrow>
     subprocess_run w' = subprocess_run w \<and> urandom w' = urandom w \<and> can_open w' = can_open w
     \<and> files w' = files w \<and> writes w' = writes w \<and> printed w' = printed w"
proof (induction k arbitrary: ls w)
  case 0
  then show ?case by simp
next
  case (Suc k)
  show ?case
  proof (cases "openssl_aes128_ecb_encrypt (random_hex w (drawn w)) (random_hex w (drawn w + 16))
             (w\<lparr>drawn := drawn w + 32\<rparr>)")
    case (Pair a w3)
    note fr = adapter_frame [OF Pair]
    show ?thesis
    proof (cases a)
      case (Inl e)
      with Suc.prems Pair fr show ?thesis by (simp add: gen_loop_Suc_unfold)
    next
      case (Inr ct)
      with Suc.prems Pair have "gen_loop k (ls @ [vector_line (random_hex w (drawn w)) (random_hex w (drawn w + 16)) ct]) w3 = (r, w')"
        by (simp add: gen_loop_Suc_unfold)
      from Suc.IH [OF this] fr show ?thesis by simp
    qed
  qed
qed

text \<open>
  A loop that ends normally has run \<open>k\<close> iterations: \<open>k\<close> lines, \<open>k\<close> processes,
  \<open>32 * k\<close> random bytes, and line \<open>j\<close> built from the \<open>j\<close>-th pair of draws.
\<close>

lemma gen_loop_success:
  "gen_loop k [] w = (Inr new, w') \<Longrightarrow>
     length new = k
     \<and> calls w' = calls w @ map (\<lambda>j. random_call w (drawn w + 32 * j)) [0 ..< k]
     \<and> drawn w' = drawn w + 32 * k
     \<and> (\<forall>j<k. \<exists>ct. hex_field ct \<and>
           new ! j = vector_line (random_hex w (drawn w + 32 * j)) (random_hex w (drawn w + 32 * j + 16)) ct)"
proof (induction k arbitrary: new w w')
  case 0
  then show ?case by simp
next
  case (Suc k)
  let ?kh = "random_hex w (drawn w)" and ?ph = "random_hex w (drawn w + 16)"
  obtain a w3 where ad: "openssl_aes128_ecb_encrypt ?kh ?ph (w\<lparr>drawn := drawn w + 32\<rparr>) = (a, w3)"
    by (cases "openssl_aes128_ecb_encrypt ?kh ?ph (w\<lparr>drawn := drawn w + 32\<rparr>)")
  from Suc.prems ad obtain ct where a: "a = Inr ct"
    by (cases a) (simp_all add: gen_loop_Suc_unfold)
  from adapter_success [OF ad [unfolded a]] have
    w3: "w3 = w\<lparr>drawn := drawn w + 32, calls := calls w @ [random_call w (drawn w)]\<rparr>"
    by (auto simp: fromhex_random_hex random_call_def)
  have ctf: "hex_field ct" using adapter_success_field [OF ad [unfolded a]] .
  from Suc.prems ad a have "gen_loop k [vector_line ?kh ?ph ct] w3 = (Inr new, w')"
    by (simp add: gen_loop_Suc_unfold)
  then obtain rest where rest: "gen_loop k [] w3 = (Inr rest, w')" and new: "new = vector_line ?kh ?ph ct # rest"
    by (subst (asm) gen_loop_acc) (auto split: prod.splits sum.splits)
  note ih = Suc.IH [OF rest]
  have u3: "urandom w3 = urandom w" and d3: "drawn w3 = drawn w + 32"
    and c3: "calls w3 = calls w @ [random_call w (drawn w)]"
    by (simp_all add: w3)
  have rh: "\<And>pos. random_hex w3 pos = random_hex w pos"
    and rc: "\<And>pos. random_call w3 pos = random_call w pos"
    by (simp_all add: random_hex_def random_call_def random_block_def u3)
  have "\<exists>ct. hex_field ct \<and>
           new ! j = vector_line (random_hex w (drawn w + 32 * j)) (random_hex w (drawn w + 32 * j + 16)) ct"
    if "j < Suc k" for j
  proof (cases j)
    case 0
    then show ?thesis using ctf new by auto
  next
    case (Suc j')
    with that have "j' < k" by simp
    with ih obtain c' where "hex_field c'"
      "rest ! j' = vector_line (random_hex w3 (drawn w3 + 32 * j')) (random_hex w3 (drawn w3 + 32 * j' + 16)) c'"
      by blast
    then show ?thesis using Suc new by (auto simp: rh d3 algebra_simps)
  qed
  moreover have "calls w' = calls w @ map (\<lambda>j. random_call w (drawn w + 32 * j)) [0 ..< Suc k]"
  proof -
    from ih have "calls w' = calls w3 @ map (\<lambda>j. random_call w3 (drawn w3 + 32 * j)) [0 ..< k]"
      by simp
    also have "\<dots> = calls w @ random_call w (drawn w + 32 * 0)
                 # map (\<lambda>j. random_call w (drawn w + 32 * Suc j)) [0 ..< k]"
      by (simp add: c3 rc d3 add.assoc)
    also have "\<dots> = calls w @ map (\<lambda>j. random_call w (drawn w + 32 * j)) [0 ..< Suc k]"
      by (simp only: map_upt_Suc)
    finally show ?thesis .
  qed
  ultimately show ?case using ih new by (simp add: d3)
qed

lemma fromhex_kat: "fromhex kat_key = Some kat_key_bytes" "fromhex kat_pt = Some kat_pt_bytes"
  by (simp_all add: kat_key_def kat_pt_def kat_key_bytes_def kat_pt_bytes_def
      ascii_space_def hex_val_def)

section \<open>The whole run\<close>

lemma join_terminated:
  "ls \<noteq> [] \<Longrightarrow> join sep ls @ sep = concat (map (\<lambda>l. l @ sep) ls)"
  by (induction sep ls rule: join.induct) simp_all

lemma generate_lines_frame:
  assumes "generate_lines n w = (r, w')"
  shows "subprocess_run w' = subprocess_run w \<and> urandom w' = urandom w \<and> can_open w' = can_open w
     \<and> files w' = files w \<and> writes w' = writes w \<and> printed w' = printed w"
proof (cases "openssl_aes128_ecb_encrypt kat_key kat_pt w")
  case (Pair a w1)
  note fr = adapter_frame [OF Pair]
  show ?thesis
  proof (cases a)
    case (Inl e)
    with assms Pair fr show ?thesis by (simp add: generate_lines_def)
  next
    case (Inr ct)
    with assms Pair have "gen_loop (nat (n - 1)) [vector_line kat_key kat_pt ct] w1 = (r, w')"
      by (simp add: generate_lines_def)
    from gen_loop_frame [OF this] fr show ?thesis by simp
  qed
qed

lemma generate_lines_success:
  assumes "generate_lines n w = (Inr ls, w')"
  shows "\<exists>p rest.
           subprocess_run w (length (calls w)) (openssl_args kat_key) kat_pt_bytes = Inr p
         \<and> returncode p = 0 \<and> length (stdout p) = 16
         \<and> ls = vector_line kat_key kat_pt (hex (stdout p)) # rest
         \<and> length rest = nat (n - 1)
         \<and> calls w' = calls w @ (openssl_args kat_key, kat_pt_bytes)
                         # map (\<lambda>j. random_call w (drawn w + 32 * j)) [0 ..< nat (n - 1)]
         \<and> drawn w' = drawn w + 32 * nat (n - 1)
         \<and> (\<forall>j<nat (n - 1). \<exists>ct. hex_field ct \<and>
               rest ! j = vector_line (random_hex w (drawn w + 32 * j))
                            (random_hex w (drawn w + 32 * j + 16)) ct)"
proof -
  obtain a w1 where ad: "openssl_aes128_ecb_encrypt kat_key kat_pt w = (a, w1)"
    by (cases "openssl_aes128_ecb_encrypt kat_key kat_pt w")
  from assms ad obtain ct where a: "a = Inr ct"
    by (cases a) (simp_all add: generate_lines_def)
  from adapter_success [OF ad [unfolded a]] obtain p where
    p: "subprocess_run w (length (calls w)) (openssl_args kat_key) kat_pt_bytes = Inr p"
      "returncode p = 0" "length (stdout p) = 16" "ct = hex (stdout p)"
    and w1: "w1 = w\<lparr>calls := calls w @ [(openssl_args kat_key, kat_pt_bytes)]\<rparr>"
    by (auto simp: fromhex_kat)
  from assms ad a have "gen_loop (nat (n - 1)) [vector_line kat_key kat_pt ct] w1 = (Inr ls, w')"
    by (simp add: generate_lines_def)
  then obtain rest where rest: "gen_loop (nat (n - 1)) [] w1 = (Inr rest, w')"
    and ls: "ls = vector_line kat_key kat_pt ct # rest"
    by (subst (asm) gen_loop_acc) (auto split: prod.splits sum.splits)
  have rh: "\<And>pos. random_hex w1 pos = random_hex w pos"
    and rc: "\<And>pos. random_call w1 pos = random_call w pos"
    by (simp_all add: random_hex_def random_call_def random_block_def w1)
  have d1: "drawn w1 = drawn w" and c1: "calls w1 = calls w @ [(openssl_args kat_key, kat_pt_bytes)]"
    by (simp_all add: w1)
  from gen_loop_success [OF rest] p ls show ?thesis
    by (simp add: rh rc d1 c1)
qed

lemma main_success:
  assumes n: "arg_n argv = Inr n" and ok: "fst (main argv w) = Inr ()"
  shows "\<exists>ls w2. generate_lines n w = (Inr ls, w2) \<and> can_open w2 (arg_out_path argv)
    \<and> snd (main argv w) =
        print (''Wrote '' @ py_str (length ls) @ '' vectors to '' @ arg_out_path argv)
          (file_write (arg_out_path argv) (join [LF] ls @ [LF])
             (w2\<lparr>files := (files w2)(arg_out_path argv \<mapsto> [])\<rparr>))"
proof -
  obtain r w2 where g: "generate_lines n w = (r, w2)"
    by (cases "generate_lines n w")
  from ok n g obtain ls where r: "r = Inr ls"
    by (cases r) (simp_all add: main_def)
  from ok n g r have o: "can_open w2 (arg_out_path argv)"
    by (cases "can_open w2 (arg_out_path argv)") (simp_all add: main_def open_w_def)
  from n g r o show ?thesis
    by (simp add: main_def open_w_def Let_def)
qed

text \<open>What a successful run leaves behind.\<close>

lemma main_success_effects:
  assumes n: "arg_n argv = Inr n" and ok: "fst (main argv w) = Inr ()"
  shows "\<exists>ls w2. generate_lines n w = (Inr ls, w2)
    \<and> files (snd (main argv w)) (arg_out_path argv) = Some (join [LF] ls @ [LF])
    \<and> writes (snd (main argv w)) = writes w @ [(arg_out_path argv, join [LF] ls @ [LF])]
    \<and> printed (snd (main argv w)) =
        printed w @ [''Wrote '' @ py_str (length ls) @ '' vectors to '' @ arg_out_path argv]
    \<and> calls (snd (main argv w)) = calls w2"
proof -
  from main_success [OF n ok] obtain ls w2 where g: "generate_lines n w = (Inr ls, w2)"
    and s: "snd (main argv w) =
        print (''Wrote '' @ py_str (length ls) @ '' vectors to '' @ arg_out_path argv)
          (file_write (arg_out_path argv) (join [LF] ls @ [LF])
             (w2\<lparr>files := (files w2)(arg_out_path argv \<mapsto> [])\<rparr>))"
    by blast
  from generate_lines_frame [OF g] have "writes w2 = writes w" "printed w2 = printed w"
    by simp_all
  with g s show ?thesis
    by (simp add: print_def file_write_def)
qed

lemma kat_adapter:
  "openssl_aes128_ecb_encrypt kat_key kat_pt w =
     (case subprocess_run w (length (calls w)) (openssl_args kat_key) kat_pt_bytes of
        Inl e \<Rightarrow> Inl e
      | Inr p \<Rightarrow>
          if returncode p \<noteq> 0
          then Inl (RuntimeError (''OpenSSL failed:'' @ [LF] @ decode_ignore (stderr p)))
          else if length (stdout p) \<noteq> 16 then Inl AssertionError
          else Inr (hex (stdout p)),
      w\<lparr>calls := calls w @ [(openssl_args kat_key, kat_pt_bytes)]\<rparr>)"
  by (simp add: openssl_aes128_ecb_encrypt_def fromhex_kat Let_def kat_key_bytes_def kat_pt_bytes_def
      split: sum.splits)

text \<open>The run, given how generation ended.\<close>

lemma main_cases:
  assumes "arg_n argv = Inr n" "generate_lines n w = (r, w2)"
  shows "main argv w =
     (case r of
        Inl e \<Rightarrow> (Inl e, w2)
      | Inr ls \<Rightarrow>
          if can_open w (arg_out_path argv)
          then (Inr (),
                print (''Wrote '' @ py_str (length ls) @ '' vectors to '' @ arg_out_path argv)
                  (file_write (arg_out_path argv) (join [LF] ls @ [LF])
                     (w2\<lparr>files := (files w2)(arg_out_path argv \<mapsto> [])\<rparr>)))
          else (Inl OSError, w2))"
  using assms generate_lines_frame [OF assms(2)]
  by (simp add: main_def open_w_def Let_def split: sum.splits)

text \<open>A run that raises leaves the file system, the writes and the printed output alone.\<close>

lemma main_failure_effects:
  assumes "fst (main argv w) = Inl e"
  shows "files (snd (main argv w)) = files w \<and> writes (snd (main argv w)) = writes w
       \<and> printed (snd (main argv w)) = printed w"
proof (cases "arg_n argv")
  case (Inl e')
  then show ?thesis by (simp add: main_def)
next
  case (Inr n)
  obtain r w2 where g: "generate_lines n w = (r, w2)"
    by (cases "generate_lines n w")
  from assms generate_lines_frame [OF g] show ?thesis
    by (simp add: main_cases [OF Inr g] split: sum.splits if_splits)
qed

section \<open>Runs that succeed\<close>

text \<open>
  With an oracle that always answers and an output file that can be opened, the run
  succeeds for every requested count: the successful runs the theorems above speak of
  exist for every \<open>n\<close>.
\<close>

lemma adapter_ok:
  assumes "oracle_ok w" and "fromhex key_hex = Some key" and "fromhex pt_hex = Some pt"
    and "length key = 16" and "length pt = 16"
  shows "\<exists>ct. openssl_aes128_ecb_encrypt key_hex pt_hex w
              = (Inr ct, w\<lparr>calls := calls w @ [(openssl_args key_hex, pt)]\<rparr>)"
proof -
  from assms(1) obtain p where
    "subprocess_run w (length (calls w)) (openssl_args key_hex) pt = Inr p"
    "returncode p = 0" "length (stdout p) = 16"
    unfolding oracle_ok_def by blast
  with assms(2-) show ?thesis
    by (simp add: openssl_aes128_ecb_encrypt_def Let_def)
qed

lemma gen_loop_ok:
  "oracle_ok w \<Longrightarrow> \<exists>ls'. fst (gen_loop k ls w) = Inr ls'"
proof (induction k arbitrary: ls w)
  case 0
  show ?case by simp
next
  case (Suc k)
  let ?v = "w\<lparr>drawn := drawn w + 32\<rparr>"
  from Suc.prems have "oracle_ok ?v" by (simp add: oracle_ok_def)
  from adapter_ok [OF this fromhex_random_hex fromhex_random_hex length_random_block length_random_block]
  obtain ct where
    a: "openssl_aes128_ecb_encrypt (random_hex w (drawn w)) (random_hex w (drawn w + 16)) ?v
          = (Inr ct, ?v\<lparr>calls := calls ?v @ [(openssl_args (random_hex w (drawn w)),
                                                 random_block w (drawn w + 16))]\<rparr>)"
    by blast
  from Suc.prems have "oracle_ok (?v\<lparr>calls := calls ?v @ [(openssl_args (random_hex w (drawn w)),
                                                 random_block w (drawn w + 16))]\<rparr>)"
    by (simp add: oracle_ok_def)
  from Suc.IH [OF this] show ?case
    by (simp add: gen_loop_Suc_unfold a)
qed

lemma main_ok:
  assumes "oracle_ok w" and "arg_n argv = Inr n" and "can_open w (arg_out_path argv)"
  shows "fst (main argv w) = Inr ()"
proof -
  have k: "length kat_key_bytes = 16" "length kat_pt_bytes = 16"
    by (simp_all add: kat_key_bytes_def kat_pt_bytes_def)
  from adapter_ok [OF assms(1) fromhex_kat k] obtain ct where
    a: "openssl_aes128_ecb_encrypt kat_key kat_pt w
          = (Inr ct, w\<lparr>calls := calls w @ [(openssl_args kat_key, kat_pt_bytes)]\<rparr>)"
    by blast
  from assms(1) have "oracle_ok (w\<lparr>calls := calls w @ [(openssl_args kat_key, kat_pt_bytes)]\<rparr>)"
    by (simp add: oracle_ok_def)
  from gen_loop_ok [OF this] obtain ls where
    "fst (gen_loop (nat (n - 1)) [vector_line kat_key kat_pt ct]
            (w\<lparr>calls := calls w @ [(openssl_args kat_key, kat_pt_bytes)]\<rparr>)) = Inr ls"
    by blast
  then obtain w2 where g: "generate_lines n w = (Inr ls, w2)"
    by (cases "gen_loop (nat (n - 1)) [vector_line kat_key kat_pt ct]
            (w\<lparr>calls := calls w @ [(openssl_args kat_key, kat_pt_bytes)]\<rparr>)")
       (simp add: generate_lines_def a)
  from assms(3) show ?thesis
    by (simp add: main_cases [OF assms(2) g])
qed

section \<open>The vector generator: successful runs\<close>

lemma content_ends_in_one_LF:
  assumes "ls \<noteq> []" "list_all is_vector_line ls"
  shows "\<exists>body c. c \<noteq> LF \<and> concat (map (\<lambda>l. l @ [LF]) ls) = body @ [c, LF]"
proof -
  from assms(1) obtain init l where ls: "ls = init @ [l]"
    by (cases ls rule: rev_cases) auto
  with assms(2) have l: "is_vector_line l" by simp
  then have "length l = 98" and hf: "hex_field (drop 66 l)"
    by (simp_all add: is_vector_line_def)
  then have "l \<noteq> []" by auto
  then obtain l' c where lc: "l = l' @ [c]"
    by (cases l rule: rev_cases) auto
  with \<open>length l = 98\<close> have "c \<in> set (drop 66 l)" by simp
  with hf have "c \<in> set hexdigits"
    by (auto simp: hex_field_def list_all_iff)
  with space_not_hex(2) have "c \<noteq> LF" by auto
  moreover have "concat (map (\<lambda>l. l @ [LF]) ls) = (concat (map (\<lambda>l. l @ [LF]) init) @ l') @ [c, LF]"
    by (simp add: ls lc)
  ultimately show ?thesis by blast
qed

text \<open>
  Claim C3. For every requested count \<open>n \<ge> 1\<close>, when the run succeeds the text left in
  the output file consists of exactly \<open>n\<close> lines, each terminated by one line feed and
  each made of three fields of 32 lowercase hexadecimal digits separated by single
  spaces; the text ends with one line feed, preceded by a character that is not one.
\<close>
theorem output_is_n_vector_lines:
  assumes "arg_n argv = Inr n" and "1 \<le> n" and "fst (main argv w) = Inr ()"
  shows "\<exists>ls. length ls = nat n \<and> list_all is_vector_line ls
           \<and> files (snd (main argv w)) (arg_out_path argv) = Some (concat (map (\<lambda>l. l @ [LF]) ls))
           \<and> (\<exists>body c. c \<noteq> LF \<and> concat (map (\<lambda>l. l @ [LF]) ls) = body @ [c, LF])"
proof -
  from main_success_effects [OF assms(1,3)] obtain ls w2 where
    g: "generate_lines n w = (Inr ls, w2)"
    and f: "files (snd (main argv w)) (arg_out_path argv) = Some (join [LF] ls @ [LF])"
    by blast
  from generate_lines_success [OF g] obtain p :: completed_process and rest where
    p: "length (stdout p) = 16"
    and ls: "ls = vector_line kat_key kat_pt (hex (stdout p)) # rest"
    and len: "length rest = nat (n - 1)"
    and rest: "\<forall>j<nat (n - 1). \<exists>ct. hex_field ct \<and>
               rest ! j = vector_line (random_hex w (drawn w + 32 * j))
                            (random_hex w (drawn w + 32 * j + 16)) ct"
    by blast
  have first: "is_vector_line (vector_line kat_key kat_pt (hex (stdout p)))"
    by (simp add: is_vector_line_vector_line hex_field_kat hex_field_hex p)
  have "is_vector_line (rest ! j)" if "j < length rest" for j
    using rest that len
    by (auto simp: is_vector_line_vector_line hex_field_random_hex)
  then have "list_all is_vector_line rest"
    by (simp add: list_all_length)
  with first ls have all: "list_all is_vector_line ls" by simp
  from ls have ne: "ls \<noteq> []" by simp
  from ls len assms(2) have n: "length ls = nat n" by simp
  from f ne have "files (snd (main argv w)) (arg_out_path argv) = Some (concat (map (\<lambda>l. l @ [LF]) ls))"
    by (simp add: join_terminated)
  with n all content_ends_in_one_LF [OF ne all] show ?thesis by blast
qed

lemma arg_n_argv3: "arg_n argv3 = Inr 3"
  by code_simp

lemma echo_run_succeeds: "fst (main argv3 (world_with echo_process)) = Inr ()"
  by code_simp

theorem output_is_n_vector_lines_witness:
  "arg_n argv3 = Inr 3 \<and> fst (main argv3 (world_with echo_process)) = Inr ()
   \<and> (\<exists>ls. length ls = nat 3 \<and> list_all is_vector_line ls
           \<and> files (snd (main argv3 (world_with echo_process))) (arg_out_path argv3)
               = Some (concat (map (\<lambda>l. l @ [LF]) ls))
           \<and> (\<exists>body c. c \<noteq> LF \<and> concat (map (\<lambda>l. l @ [LF]) ls) = body @ [c, LF]))"
proof -
  have one: "(1::int) \<le> 3" by simp
  from output_is_n_vector_lines [OF arg_n_argv3 one echo_run_succeeds]
  show ?thesis using arg_n_argv3 echo_run_succeeds by blast
qed




text \<open>
  Claim C9. For every requested count \<open>n \<ge> 1\<close>, a successful run makes exactly \<open>n\<close>
  oracle calls, in this order: one for the known-answer key and plaintext, then one for
  each of the \<open>n - 1\<close> random vectors, with the key and plaintext drawn for it; and
  it prints that it wrote \<open>n\<close> vectors.
\<close>
theorem one_oracle_call_per_vector:
  assumes "arg_n argv = Inr n" and "1 \<le> n" and "fst (main argv w) = Inr ()"
  shows "calls (snd (main argv w)) =
           calls w @ (openssl_args kat_key, kat_pt_bytes)
                     # map (\<lambda>j. random_call w (drawn w + 32 * j)) [0 ..< nat n - 1]
       \<and> length (calls (snd (main argv w))) = length (calls w) + nat n
       \<and> printed (snd (main argv w)) =
           printed w @ [''Wrote '' @ py_str (nat n) @ '' vectors to '' @ arg_out_path argv]"
proof -
  from main_success_effects [OF assms(1,3)] obtain ls w2 where
    g: "generate_lines n w = (Inr ls, w2)"
    and pr: "printed (snd (main argv w)) =
        printed w @ [''Wrote '' @ py_str (length ls) @ '' vectors to '' @ arg_out_path argv]"
    and c: "calls (snd (main argv w)) = calls w2"
    by blast
  from generate_lines_success [OF g] obtain p :: completed_process and rest where
    ls: "ls = vector_line kat_key kat_pt (hex (stdout p)) # rest"
    and len: "length rest = nat (n - 1)"
    and cl: "calls w2 = calls w @ (openssl_args kat_key, kat_pt_bytes)
                         # map (\<lambda>j. random_call w (drawn w + 32 * j)) [0 ..< nat (n - 1)]"
    by blast
  from ls len assms(2) have n: "length ls = nat n" by simp
  from assms(2) have m: "nat (n - 1) = nat n - 1" and "Suc (nat n - 1) = nat n"
    by simp_all
  with cl c pr n show ?thesis by simp
qed

lemma arg_out_path_argv3: "arg_out_path argv3 = ''out.txt''"
  by code_simp

lemma py_str_3: "py_str 3 = ''3''"
  by code_simp

theorem one_oracle_call_per_vector_witness:
  "arg_n argv3 = Inr 3 \<and> fst (main argv3 (world_with echo_process)) = Inr ()
   \<and> calls (snd (main argv3 (world_with echo_process))) =
       [(openssl_args kat_key, kat_pt_bytes),
        random_call (world_with echo_process) 0,
        random_call (world_with echo_process) 32]
   \<and> length (calls (snd (main argv3 (world_with echo_process)))) = 3
   \<and> printed (snd (main argv3 (world_with echo_process))) = [''Wrote 3 vectors to out.txt'']"
proof -
  have one: "(1::int) \<le> 3" by simp
  have e: "calls (world_with echo_process) = []" "printed (world_with echo_process) = []"
    "drawn (world_with echo_process) = 0"
    by (simp_all add: world_with_def)
  have u: "[0 ..< 2] = [0, 1 :: nat]"
    by code_simp
  from one_oracle_call_per_vector [OF arg_n_argv3 one echo_run_succeeds]
  show ?thesis
    using arg_n_argv3 echo_run_succeeds
    by (simp add: e u arg_out_path_argv3 py_str_3)
qed

section \<open>The oracle adapter: failures\<close>

text \<open>ASCII bytes are decoded to themselves.\<close>

lemma decode_ignore_ascii:
  "list_all (\<lambda>b. b < 0x80) bs \<Longrightarrow> decode_ignore bs = chars_of bs"
  by (induction bs) (simp_all add: chars_of_def)

text \<open>
  Claim C5. When the key or the plaintext handed to the adapter does not decode to
  exactly 16 bytes, the adapter raises (\<open>ValueError\<close> when the text is no hexadecimal
  string, \<open>AssertionError\<close> when the length is wrong) and the world is unchanged: no
  process has been started.
\<close>
theorem malformed_length_fails_before_call:
  assumes "map_option length (fromhex key_hex) \<noteq> Some 16
         \<or> map_option length (fromhex pt_hex) \<noteq> Some 16"
  shows "openssl_aes128_ecb_encrypt key_hex pt_hex w =
           (Inl (if fromhex key_hex = None \<or> fromhex pt_hex = None then ValueError
                 else AssertionError), w)"
  using assms
  by (auto simp: openssl_aes128_ecb_encrypt_def split: option.splits)

lemma fromhex_00: "fromhex ''00'' = Some [0]"
  by code_simp

theorem malformed_length_fails_before_call_witness:
  "fromhex ''00'' = Some [0] \<and> fromhex kat_pt = Some kat_pt_bytes
   \<and> openssl_aes128_ecb_encrypt ''00'' kat_pt (world_with echo_process)
       = (Inl AssertionError, world_with echo_process)
   \<and> calls (snd (openssl_aes128_ecb_encrypt ''00'' kat_pt (world_with echo_process))) = []"
proof -
  have h: "map_option length (fromhex ''00'') \<noteq> Some 16
         \<or> map_option length (fromhex kat_pt) \<noteq> Some 16"
    by (simp only: fromhex_00) simp
  have c: "(if fromhex ''00'' = None \<or> fromhex kat_pt = None then ValueError else AssertionError)
             = AssertionError"
    by (simp only: fromhex_00 fromhex_kat) simp
  have r: "openssl_aes128_ecb_encrypt ''00'' kat_pt (world_with echo_process)
       = (Inl AssertionError, world_with echo_process)"
    using malformed_length_fails_before_call [OF h, of "world_with echo_process"]
    by (simp only: c)
  have "calls (snd (openssl_aes128_ecb_encrypt ''00'' kat_pt (world_with echo_process))) = []"
    by (simp only: r snd_conv) (simp add: world_with_def)
  with r fromhex_00 fromhex_kat(2) show ?thesis by blast
qed

text \<open>
  Claim C6. When the process exits with status 0 but its output is not exactly 16 bytes
  long, the adapter raises \<open>AssertionError\<close>; and whenever the adapter returns
  normally, its result has 32 characters and is the hexadecimal form of the 16 bytes
  the process wrote, neither truncated nor padded.
\<close>
theorem malformed_output_is_fatal:
  "(fromhex key_hex = Some key \<and> fromhex pt_hex = Some pt \<and> length key = 16 \<and> length pt = 16
      \<and> subprocess_run w (length (calls w)) (openssl_args key_hex) pt = Inr p
      \<and> returncode p = 0 \<and> length (stdout p) \<noteq> 16
    \<longrightarrow> fst (openssl_aes128_ecb_encrypt key_hex pt_hex w) = Inl AssertionError)
   \<and> (fst (openssl_aes128_ecb_encrypt key_hex pt_hex w) = Inr ct_hex
    \<longrightarrow> length ct_hex = 32
        \<and> (\<exists>pt p. fromhex pt_hex = Some pt
              \<and> subprocess_run w (length (calls w)) (openssl_args key_hex) pt = Inr p
              \<and> length (stdout p) = 16 \<and> ct_hex = hex (stdout p)))"
proof (intro conjI impI)
  assume "fromhex key_hex = Some key \<and> fromhex pt_hex = Some pt \<and> length key = 16 \<and> length pt = 16
      \<and> subprocess_run w (length (calls w)) (openssl_args key_hex) pt = Inr p
      \<and> returncode p = 0 \<and> length (stdout p) \<noteq> 16"
  then show "fst (openssl_aes128_ecb_encrypt key_hex pt_hex w) = Inl AssertionError"
    by (simp add: openssl_aes128_ecb_encrypt_def Let_def)
next
  assume a: "fst (openssl_aes128_ecb_encrypt key_hex pt_hex w) = Inr ct_hex"
  then obtain w' where "openssl_aes128_ecb_encrypt key_hex pt_hex w = (Inr ct_hex, w')"
    by (cases "openssl_aes128_ecb_encrypt key_hex pt_hex w") simp
  from adapter_success [OF this] obtain pt' and p' :: completed_process where
    s: "fromhex pt_hex = Some pt'"
      "subprocess_run w (length (calls w)) (openssl_args key_hex) pt' = Inr p'"
      "length (stdout p') = 16" "ct_hex = hex (stdout p')"
    by blast
  then show "length ct_hex = 32" by (simp add: length_hex)
  from s show "\<exists>pt p. fromhex pt_hex = Some pt
              \<and> subprocess_run w (length (calls w)) (openssl_args key_hex) pt = Inr p
              \<and> length (stdout p) = 16 \<and> ct_hex = hex (stdout p)"
    by blast
qed

lemma short_reply:
  "subprocess_run (world_with short_process) (length (calls (world_with short_process)))
      (openssl_args kat_key) kat_pt_bytes
     = Inr \<lparr>returncode = 0, stdout = take 15 kat_pt_bytes, stderr = []\<rparr>"
  by (simp add: world_with_def short_process_def)

lemma echo_kat_result:
  "fst (openssl_aes128_ecb_encrypt kat_key kat_pt (world_with echo_process)) = Inr kat_pt"
  by code_simp

theorem malformed_output_is_fatal_witness:
  "length (stdout \<lparr>returncode = 0, stdout = take 15 kat_pt_bytes, stderr = []\<rparr>) = 15
   \<and> fst (openssl_aes128_ecb_encrypt kat_key kat_pt (world_with short_process)) = Inl AssertionError
   \<and> fst (openssl_aes128_ecb_encrypt kat_key kat_pt (world_with echo_process)) = Inr kat_pt
   \<and> length kat_pt = 32"
proof -
  have l: "length (stdout \<lparr>returncode = 0, stdout = take 15 kat_pt_bytes, stderr = []\<rparr>) = 15"
    by (simp add: kat_pt_bytes_def)
  have k: "length kat_key_bytes = 16" "length kat_pt_bytes = 16"
    by (simp_all add: kat_key_bytes_def kat_pt_bytes_def)
  have a: "fst (openssl_aes128_ecb_encrypt kat_key kat_pt (world_with short_process)) = Inl AssertionError"
    using malformed_output_is_fatal [of kat_key kat_key_bytes kat_pt kat_pt_bytes
        "world_with short_process" "\<lparr>returncode = 0, stdout = take 15 kat_pt_bytes, stderr = []\<rparr>"]
      fromhex_kat short_reply k l
    by simp
  have b: "length kat_pt = 32"
    using malformed_output_is_fatal [of kat_key _ kat_pt _ "world_with echo_process" _ kat_pt]
      echo_kat_result
    by blast
  from l a b echo_kat_result show ?thesis by simp
qed

text \<open>
  Claim C7. When the process is started and exits with a non-zero status, the adapter
  raises a \<open>RuntimeError\<close> whose message is \<open>"OpenSSL failed:\n"\<close> followed by the
  process's decoded standard error, and returns no ciphertext.
\<close>
theorem failure_status_raises_with_stderr:
  assumes "fromhex key_hex = Some key" and "fromhex pt_hex = Some pt"
    and "length key = 16" and "length pt = 16"
    and "subprocess_run w (length (calls w)) (openssl_args key_hex) pt = Inr p"
    and "returncode p \<noteq> 0"
  shows "openssl_aes128_ecb_encrypt key_hex pt_hex w =
           (Inl (RuntimeError (''OpenSSL failed:'' @ [LF] @ decode_ignore (stderr p))),
            w\<lparr>calls := calls w @ [(openssl_args key_hex, pt)]\<rparr>)"
  using assms by (simp add: openssl_aes128_ecb_encrypt_def Let_def)

lemma failing_reply:
  "subprocess_run (world_with failing_process) (length (calls (world_with failing_process)))
      (openssl_args kat_key) kat_pt_bytes
     = Inr \<lparr>returncode = 1, stdout = [], stderr = [0x62, 0x61, 0x64, 0x0A]\<rparr>"
  by (simp add: world_with_def failing_process_def)

theorem failure_status_raises_with_stderr_witness:
  "fromhex kat_key = Some kat_key_bytes \<and> fromhex kat_pt = Some kat_pt_bytes
   \<and> length kat_key_bytes = 16 \<and> length kat_pt_bytes = 16
   \<and> subprocess_run (world_with failing_process) (length (calls (world_with failing_process)))
        (openssl_args kat_key) kat_pt_bytes
       = Inr \<lparr>returncode = 1, stdout = [], stderr = [0x62, 0x61, 0x64, 0x0A]\<rparr>
   \<and> fst (openssl_aes128_ecb_encrypt kat_key kat_pt (world_with failing_process))
       = Inl (RuntimeError (''OpenSSL failed:'' @ [LF] @ ''bad'' @ [LF]))"
proof -
  have k: "length kat_key_bytes = 16" "length kat_pt_bytes = 16"
    by (simp_all add: kat_key_bytes_def kat_pt_bytes_def)
  have r: "returncode \<lparr>returncode = 1, stdout = [], stderr = [0x62, 0x61, 0x64, 0x0A]\<rparr> \<noteq> 0"
    by simp
  have d: "decode_ignore [0x62, 0x61, 0x64, 0x0A] = ''bad'' @ [LF]"
    by code_simp
  from failure_status_raises_with_stderr [OF fromhex_kat k failing_reply r]
  show ?thesis
    using fromhex_kat k failing_reply d by simp
qed

section \<open>The vector generator: failing runs\<close>

text \<open>
  Claim C8. When an oracle call fails during generation, for the known-answer vector or
  for any random vector, the run ends with that error and the file system, the log of
  writes and the printed output are what they were before the run. In a successful run
  the file is written by exactly one \<open>write\<close>, of the whole text, holding every
  generated line, after generation has finished.
\<close>
theorem oracle_failure_leaves_sink_untouched:
  "(arg_n argv = Inr n \<and> fst (generate_lines n w) = Inl e
      \<longrightarrow> fst (main argv w) = Inl e
        \<and> files (snd (main argv w)) = files w
        \<and> writes (snd (main argv w)) = writes w
        \<and> printed (snd (main argv w)) = printed w)
   \<and> (arg_n argv = Inr n \<and> fst (main argv w) = Inr ()
      \<longrightarrow> (\<exists>ls w2. generate_lines n w = (Inr ls, w2)
             \<and> length ls = Suc (nat (n - 1))
             \<and> writes w2 = writes w \<and> files w2 = files w
             \<and> writes (snd (main argv w)) = writes w @ [(arg_out_path argv, join [LF] ls @ [LF])]
             \<and> files (snd (main argv w)) = (files w)(arg_out_path argv \<mapsto> join [LF] ls @ [LF])))"
proof (rule conjI; rule impI)
  assume a: "arg_n argv = Inr n \<and> fst (generate_lines n w) = Inl e"
  then obtain w2 where g: "generate_lines n w = (Inl e, w2)"
    by (cases "generate_lines n w") simp
  from a have m: "fst (main argv w) = Inl e"
    by (simp add: main_cases [OF _ g])
  then show "fst (main argv w) = Inl e
        \<and> files (snd (main argv w)) = files w
        \<and> writes (snd (main argv w)) = writes w
        \<and> printed (snd (main argv w)) = printed w"
    using main_failure_effects [OF m] by simp
next
  assume a: "arg_n argv = Inr n \<and> fst (main argv w) = Inr ()"
  then have n: "arg_n argv = Inr n" and ok: "fst (main argv w) = Inr ()"
    by simp_all
  from main_success [OF n ok] obtain ls w2 where
    g: "generate_lines n w = (Inr ls, w2)"
    and s: "snd (main argv w) =
        print (''Wrote '' @ py_str (length ls) @ '' vectors to '' @ arg_out_path argv)
          (file_write (arg_out_path argv) (join [LF] ls @ [LF])
             (w2\<lparr>files := (files w2)(arg_out_path argv \<mapsto> [])\<rparr>))"
    by blast
  from generate_lines_frame [OF g] have fr: "writes w2 = writes w" "files w2 = files w"
    by simp_all
  from generate_lines_success [OF g] have len: "length ls = Suc (nat (n - 1))"
    by auto
  have "writes (snd (main argv w)) = writes w @ [(arg_out_path argv, join [LF] ls @ [LF])]"
    by (simp add: s print_def file_write_def fr)
  moreover have "files (snd (main argv w)) = (files w)(arg_out_path argv \<mapsto> join [LF] ls @ [LF])"
    by (simp add: s print_def file_write_def fr)
  ultimately show "\<exists>ls w2. generate_lines n w = (Inr ls, w2)
             \<and> length ls = Suc (nat (n - 1))
             \<and> writes w2 = writes w \<and> files w2 = files w
             \<and> writes (snd (main argv w)) = writes w @ [(arg_out_path argv, join [LF] ls @ [LF])]
             \<and> files (snd (main argv w)) = (files w)(arg_out_path argv \<mapsto> join [LF] ls @ [LF])"
    using g len fr by blast
qed

lemma flaky_generation_fails:
  "fst (generate_lines 3 (world_with flaky_process))
     = Inl (RuntimeError (''OpenSSL failed:'' @ [LF] @ ''bad'' @ [LF]))"
  by code_simp

lemma flaky_made_two_calls:
  "length (calls (snd (main argv3 (world_with flaky_process)))) = 2"
  by code_simp

theorem oracle_failure_leaves_sink_untouched_witness:
  "arg_n argv3 = Inr 3
   \<and> fst (generate_lines 3 (world_with flaky_process))
       = Inl (RuntimeError (''OpenSSL failed:'' @ [LF] @ ''bad'' @ [LF]))
   \<and> length (calls (snd (main argv3 (world_with flaky_process)))) = 2
   \<and> fst (main argv3 (world_with flaky_process))
       = Inl (RuntimeError (''OpenSSL failed:'' @ [LF] @ ''bad'' @ [LF]))
   \<and> files (snd (main argv3 (world_with flaky_process))) = Map.empty
   \<and> writes (snd (main argv3 (world_with flaky_process))) = []
   \<and> printed (snd (main argv3 (world_with flaky_process))) = []
   \<and> fst (main argv3 (world_with echo_process)) = Inr ()
   \<and> (\<exists>ls. length ls = 3
         \<and> writes (snd (main argv3 (world_with echo_process))) = [(''out.txt'', join [LF] ls @ [LF])])"
proof -
  have fail: "fst (main argv3 (world_with flaky_process))
         = Inl (RuntimeError (''OpenSSL failed:'' @ [LF] @ ''bad'' @ [LF]))
        \<and> files (snd (main argv3 (world_with flaky_process))) = files (world_with flaky_process)
        \<and> writes (snd (main argv3 (world_with flaky_process))) = writes (world_with flaky_process)
        \<and> printed (snd (main argv3 (world_with flaky_process))) = printed (world_with flaky_process)"
    using oracle_failure_leaves_sink_untouched
      [of argv3 3 "world_with flaky_process" "RuntimeError (''OpenSSL failed:'' @ [LF] @ ''bad'' @ [LF])"]
      arg_n_argv3 flaky_generation_fails
    by blast
  have good: "\<exists>ls w2. generate_lines 3 (world_with echo_process) = (Inr ls, w2)
             \<and> length ls = Suc (nat (3 - 1))
             \<and> writes w2 = writes (world_with echo_process) \<and> files w2 = files (world_with echo_process)
             \<and> writes (snd (main argv3 (world_with echo_process)))
                 = writes (world_with echo_process) @ [(arg_out_path argv3, join [LF] ls @ [LF])]
             \<and> files (snd (main argv3 (world_with echo_process)))
                 = (files (world_with echo_process))(arg_out_path argv3 \<mapsto> join [LF] ls @ [LF])"
    using oracle_failure_leaves_sink_untouched [of argv3 3 "world_with echo_process"]
      arg_n_argv3 echo_run_succeeds
    by blast
  have p: "arg_out_path argv3 = ''out.txt''"
    by code_simp
  have e: "files (world_with r) = Map.empty" "writes (world_with r) = []" "printed (world_with r) = []"
    for r
    by (simp_all add: world_with_def)
  from good have "\<exists>ls. length ls = 3
         \<and> writes (snd (main argv3 (world_with echo_process))) = [(''out.txt'', join [LF] ls @ [LF])]"
    by (auto simp: p e)
  with fail arg_n_argv3 flaky_generation_fails flaky_made_two_calls echo_run_succeeds
  show ?thesis by (simp add: e)
qed

section \<open>Determinism\<close>

lemma map_upt_shift: "map f [a ..< a + k] = map (\<lambda>i. f (a + i)) [0 ..< k]"
  by (induction k) simp_all

lemma same_random_hex:
  assumes "same_random k w1 w2" and "off + 16 \<le> k"
  shows "random_hex w1 (drawn w1 + off) = random_hex w2 (drawn w2 + off)"
proof -
  have "map (urandom w1) [drawn w1 + off ..< drawn w1 + off + 16]
      = map (\<lambda>i. urandom w1 (drawn w1 + off + i)) [0 ..< 16]"
    by (rule map_upt_shift)
  also have "\<dots> = map (\<lambda>i. urandom w2 (drawn w2 + off + i)) [0 ..< 16]"
  proof (rule map_cong [OF refl])
    fix i assume "i \<in> set [0 ..< 16]"
    with assms(2) have "off + i < k" by simp
    with assms(1) have "urandom w1 (drawn w1 + (off + i)) = urandom w2 (drawn w2 + (off + i))"
      unfolding same_random_def by blast
    then show "urandom w1 (drawn w1 + off + i) = urandom w2 (drawn w2 + off + i)"
      by (simp only: add.assoc)
  qed
  also have "\<dots> = map (urandom w2) [drawn w2 + off ..< drawn w2 + off + 16]"
    by (rule map_upt_shift [symmetric])
  finally show ?thesis by (simp only: random_hex_def random_block_def)
qed

lemma adapter_related:
  assumes v: "oracle_view (subprocess_run w1 (length (calls w1)) (openssl_args key_hex) pt)
         = oracle_view (subprocess_run w2 (length (calls w2)) (openssl_args key_hex) pt)"
    and pt: "fromhex pt_hex = Some pt"
  shows "outcome (fst (openssl_aes128_ecb_encrypt key_hex pt_hex w1))
       = outcome (fst (openssl_aes128_ecb_encrypt key_hex pt_hex w2))"
proof (cases "fromhex key_hex")
  case None
  then show ?thesis
    by (simp add: openssl_aes128_ecb_encrypt_def outcome_def)
next
  case (Some key)
  show ?thesis
  proof (cases "length key = 16 \<and> length pt = 16")
    case False
    with Some pt show ?thesis
      by (simp add: openssl_aes128_ecb_encrypt_def outcome_def)
  next
    case True
    have *: "outcome (fst (openssl_aes128_ecb_encrypt key_hex pt_hex w))
        = map_option hex
            (case oracle_view (subprocess_run w (length (calls w)) (openssl_args key_hex) pt) of
               None \<Rightarrow> None
             | Some ct \<Rightarrow> if length ct = 16 then Some ct else None)" for w
      using Some pt True
      by (simp add: openssl_aes128_ecb_encrypt_def outcome_def oracle_view_def Let_def
          split: sum.splits)
    show ?thesis by (simp only: * v)
  qed
qed

lemma adapter_related':
  assumes "same_oracle w1 w2"
  shows "outcome (fst (openssl_aes128_ecb_encrypt key_hex pt_hex w1))
       = outcome (fst (openssl_aes128_ecb_encrypt key_hex pt_hex w2))"
proof (cases "fromhex pt_hex")
  case None
  then show ?thesis
    by (simp add: openssl_aes128_ecb_encrypt_def outcome_def split: option.splits)
next
  case (Some pt)
  from assms have "oracle_view (subprocess_run w1 (length (calls w1) + 0) (openssl_args key_hex) pt)
         = oracle_view (subprocess_run w2 (length (calls w2) + 0) (openssl_args key_hex) pt)"
    unfolding same_oracle_def by blast
  then have v: "oracle_view (subprocess_run w1 (length (calls w1)) (openssl_args key_hex) pt)
         = oracle_view (subprocess_run w2 (length (calls w2)) (openssl_args key_hex) pt)"
    by simp
  show ?thesis by (rule adapter_related [OF v Some])
qed

lemma adapter_advances:
  assumes "openssl_aes128_ecb_encrypt key_hex pt_hex w = (Inr ct, w')"
  shows "length (calls w') = Suc (length (calls w))" "subprocess_run w' = subprocess_run w"
    "urandom w' = urandom w" "drawn w' = drawn w"
  using adapter_success [OF assms] by auto

lemma same_oracle_step:
  assumes "same_oracle w1 w2"
    and "length (calls w1') = Suc (length (calls w1))" "subprocess_run w1' = subprocess_run w1"
    and "length (calls w2') = Suc (length (calls w2))" "subprocess_run w2' = subprocess_run w2"
  shows "same_oracle w1' w2'"
  unfolding same_oracle_def
proof (intro allI)
  fix j args inp
  from assms(1) have "oracle_view (subprocess_run w1 (length (calls w1) + Suc j) args inp)
          = oracle_view (subprocess_run w2 (length (calls w2) + Suc j) args inp)"
    unfolding same_oracle_def by blast
  with assms(2-) show "oracle_view (subprocess_run w1' (length (calls w1') + j) args inp)
          = oracle_view (subprocess_run w2' (length (calls w2') + j) args inp)"
    by simp
qed

lemma same_oracle_drawn [simp]:
  "same_oracle (w1\<lparr>drawn := a\<rparr>) (w2\<lparr>drawn := b\<rparr>) = same_oracle w1 w2"
  by (simp add: same_oracle_def)

lemma same_random_step:
  assumes "same_random (32 * Suc k) w1 w2"
    and "drawn w1' = drawn w1 + 32" "urandom w1' = urandom w1"
    and "drawn w2' = drawn w2 + 32" "urandom w2' = urandom w2"
  shows "same_random (32 * k) w1' w2'"
  unfolding same_random_def
proof (intro allI impI)
  fix i assume "i < 32 * k"
  then have "32 + i < 32 * Suc k" by simp
  with assms(1) have "urandom w1 (drawn w1 + (32 + i)) = urandom w2 (drawn w2 + (32 + i))"
    unfolding same_random_def by blast
  with assms(2-) show "urandom w1' (drawn w1' + i) = urandom w2' (drawn w2' + i)"
    by (simp add: add.assoc)
qed

lemma gen_loop_related:
  assumes "same_random (32 * k) w1 w2" and "same_oracle w1 w2"
  shows "outcome (fst (gen_loop k ls w1)) = outcome (fst (gen_loop k ls w2))"
  using assms
proof (induction k arbitrary: ls w1 w2)
  case 0
  show ?case by simp
next
  case (Suc k)
  let ?kh = "random_hex w1 (drawn w1)" and ?ph = "random_hex w1 (drawn w1 + 16)"
  have kh: "random_hex w2 (drawn w2) = ?kh"
    using same_random_hex [OF Suc.prems(1), of 0] by simp
  have ph: "random_hex w2 (drawn w2 + 16) = ?ph"
    using same_random_hex [OF Suc.prems(1), of 16] by simp
  let ?v1 = "w1\<lparr>drawn := drawn w1 + 32\<rparr>" and ?v2 = "w2\<lparr>drawn := drawn w2 + 32\<rparr>"
  obtain a1 u1 where a1: "openssl_aes128_ecb_encrypt ?kh ?ph ?v1 = (a1, u1)"
    by (cases "openssl_aes128_ecb_encrypt ?kh ?ph ?v1")
  obtain a2 u2 where a2: "openssl_aes128_ecb_encrypt ?kh ?ph ?v2 = (a2, u2)"
    by (cases "openssl_aes128_ecb_encrypt ?kh ?ph ?v2")
  have so: "same_oracle ?v1 ?v2" using Suc.prems(2) by simp
  from adapter_related' [OF so, of ?kh ?ph] a1 a2 have oc: "outcome a1 = outcome a2"
    by simp
  show ?case
  proof (cases a1)
    case (Inl e1)
    with oc obtain e2 where "a2 = Inl e2"
      by (cases a2) (simp_all add: outcome_def)
    with Inl a1 a2 show ?thesis
      by (simp add: gen_loop_Suc_unfold kh ph outcome_def)
  next
    case (Inr ct)
    with oc have r2: "a2 = Inr ct"
      by (cases a2) (simp_all add: outcome_def)
    note ad1 = adapter_advances [OF a1 [unfolded Inr]]
    note ad2 = adapter_advances [OF a2 [unfolded r2]]
    have so': "same_oracle u1 u2"
      by (rule same_oracle_step [OF so]) (simp_all add: ad1 ad2)
    have sr': "same_random (32 * k) u1 u2"
      by (rule same_random_step [OF Suc.prems(1)]) (simp_all add: ad1 ad2)
    from Suc.IH [OF sr' so'] Inr r2 a1 a2 show ?thesis
      by (simp add: gen_loop_Suc_unfold kh ph)
  qed
qed

lemma generate_lines_related:
  assumes "same_random (32 * nat (n - 1)) w1 w2" and "same_oracle w1 w2"
  shows "outcome (fst (generate_lines n w1)) = outcome (fst (generate_lines n w2))"
proof -
  obtain a1 u1 where a1: "openssl_aes128_ecb_encrypt kat_key kat_pt w1 = (a1, u1)"
    by (cases "openssl_aes128_ecb_encrypt kat_key kat_pt w1")
  obtain a2 u2 where a2: "openssl_aes128_ecb_encrypt kat_key kat_pt w2 = (a2, u2)"
    by (cases "openssl_aes128_ecb_encrypt kat_key kat_pt w2")
  from adapter_related' [OF assms(2), of kat_key kat_pt] a1 a2 have oc: "outcome a1 = outcome a2"
    by simp
  show ?thesis
  proof (cases a1)
    case (Inl e1)
    with oc obtain e2 where "a2 = Inl e2"
      by (cases a2) (simp_all add: outcome_def)
    with Inl a1 a2 show ?thesis
      by (simp add: generate_lines_def outcome_def)
  next
    case (Inr ct)
    with oc have r2: "a2 = Inr ct"
      by (cases a2) (simp_all add: outcome_def)
    note ad1 = adapter_advances [OF a1 [unfolded Inr]]
    note ad2 = adapter_advances [OF a2 [unfolded r2]]
    have so': "same_oracle u1 u2"
      by (rule same_oracle_step [OF assms(2)]) (simp_all add: ad1 ad2)
    have sr': "same_random (32 * nat (n - 1)) u1 u2"
      using assms(1) by (simp add: same_random_def ad1 ad2)
    from gen_loop_related [OF sr' so'] Inr r2 a1 a2 show ?thesis
      by (simp add: generate_lines_def)
  qed
qed

text \<open>
  Claim C10. Two runs with the same arguments, in worlds that deliver the same random
  bytes to the run (32 for each random vector), whose oracles behave the same and whose
  output path can be opened in both or in neither, end the same way, write the same
  text and print the same report; the worlds may differ in everything else.
\<close>
theorem generator_is_deterministic:
  assumes "arg_n argv = Inr n"
    and "same_random (32 * nat (n - 1)) w1 w2"
    and "same_oracle w1 w2"
    and "can_open w1 (arg_out_path argv) = can_open w2 (arg_out_path argv)"
  shows "outcome (fst (main argv w1)) = outcome (fst (main argv w2))
       \<and> written_during w1 (snd (main argv w1)) = written_during w2 (snd (main argv w2))
       \<and> printed_during w1 (snd (main argv w1)) = printed_during w2 (snd (main argv w2))"
proof -
  obtain r1 u1 where g1: "generate_lines n w1 = (r1, u1)"
    by (cases "generate_lines n w1")
  obtain r2 u2 where g2: "generate_lines n w2 = (r2, u2)"
    by (cases "generate_lines n w2")
  note f1 = generate_lines_frame [OF g1] and f2 = generate_lines_frame [OF g2]
  from generate_lines_related [OF assms(2,3)] g1 g2 have oc: "outcome r1 = outcome r2"
    by simp
  note m1 = main_cases [OF assms(1) g1] and m2 = main_cases [OF assms(1) g2]
  show ?thesis
  proof (cases r1)
    case (Inl e1)
    with oc obtain e2 where e2: "r2 = Inl e2"
      by (cases r2) (simp_all add: outcome_def)
    show ?thesis
      by (simp add: m1 m2 Inl e2 outcome_def written_during_def printed_during_def f1 f2)
  next
    case (Inr ls)
    with oc have r2: "r2 = Inr ls"
      by (cases r2) (simp_all add: outcome_def)
    show ?thesis
      using assms(4)
      by (simp add: m1 m2 Inr r2 outcome_def written_during_def printed_during_def f1 f2
          print_def file_write_def)
  qed
qed

lemma offset_noisy_same_random: "same_random (32 * nat (3 - 1)) offset_world noisy_world"
  by (simp add: same_random_def offset_world_def noisy_world_def add.commute)

lemma offset_noisy_same_oracle: "same_oracle offset_world noisy_world"
  by (simp add: same_oracle_def offset_world_def noisy_world_def echo_process_def noisy_process_def
      oracle_view_def)

lemma offset_noisy_can_open:
  "can_open offset_world (arg_out_path argv3) = can_open noisy_world (arg_out_path argv3)"
  by (simp add: offset_world_def noisy_world_def)

lemma offset_run: "outcome (fst (main argv3 offset_world)) = Some ()"
  by code_simp

lemma offset_printed: "printed_during offset_world (snd (main argv3 offset_world)) = [''Wrote 3 vectors to out.txt'']"
  by code_simp

theorem generator_is_deterministic_witness:
  "arg_n argv3 = Inr 3
   \<and> same_random (32 * nat (3 - 1)) offset_world noisy_world
   \<and> same_oracle offset_world noisy_world
   \<and> can_open offset_world (arg_out_path argv3) = can_open noisy_world (arg_out_path argv3)
   \<and> outcome (fst (main argv3 noisy_world)) = Some ()
   \<and> written_during noisy_world (snd (main argv3 noisy_world))
       = written_during offset_world (snd (main argv3 offset_world))
   \<and> printed_during noisy_world (snd (main argv3 noisy_world)) = [''Wrote 3 vectors to out.txt'']"
  using generator_is_deterministic
    [OF arg_n_argv3 offset_noisy_same_random offset_noisy_same_oracle offset_noisy_can_open]
    arg_n_argv3 offset_noisy_same_random offset_noisy_same_oracle offset_noisy_can_open
    offset_run offset_printed
  by simp

section \<open>The known-answer value and the requested count are not checked\<close>

lemma kat_generation:
  assumes "subprocess_run w (length (calls w)) (openssl_args kat_key) kat_pt_bytes = Inr p"
    and "returncode p = 0" and "length (stdout p) = 16"
  shows "generate_lines n w =
           (case gen_loop (nat (n - 1)) []
                   (w\<lparr>calls := calls w @ [(openssl_args kat_key, kat_pt_bytes)]\<rparr>) of
              (Inl e, w2) \<Rightarrow> (Inl e, w2)
            | (Inr rest, w2) \<Rightarrow> (Inr (vector_line kat_key kat_pt (hex (stdout p)) # rest), w2))"
  using assms
  by (simp add: generate_lines_def kat_adapter)
     (subst gen_loop_acc, simp split: prod.splits sum.splits)

text \<open>
  Claim C1, as the code has it. The generator never compares the ciphertext the oracle
  returns for the known-answer pair with \<open>69c4e0d86a7b0430d8cdb78070b4c55a\<close>. Once the
  oracle has answered that call with status 0 and 16 bytes, whatever they are,
  whether the run fails is decided by the later oracle calls and by opening the output
  file alone, and a successful run emits the returned bytes, in hexadecimal, as the
  ciphertext field of line 1.
\<close>
theorem known_answer_ciphertext_not_compared:
  assumes "arg_n argv = Inr n"
    and "subprocess_run w (length (calls w)) (openssl_args kat_key) kat_pt_bytes = Inr p"
    and "returncode p = 0" and "length (stdout p) = 16"
  shows "fst (main argv w) =
           (case fst (gen_loop (nat (n - 1)) []
                        (w\<lparr>calls := calls w @ [(openssl_args kat_key, kat_pt_bytes)]\<rparr>)) of
              Inl e \<Rightarrow> Inl e
            | Inr rest \<Rightarrow> if can_open w (arg_out_path argv) then Inr () else Inl OSError)
       \<and> (fst (main argv w) = Inr () \<longrightarrow>
            (\<exists>rest. files (snd (main argv w)) (arg_out_path argv)
               = Some (vector_line kat_key kat_pt (hex (stdout p)) @ [LF] @ rest)))"
proof -
  let ?w1 = "w\<lparr>calls := calls w @ [(openssl_args kat_key, kat_pt_bytes)]\<rparr>"
  obtain r w2 where l: "gen_loop (nat (n - 1)) [] ?w1 = (r, w2)"
    by (cases "gen_loop (nat (n - 1)) [] ?w1")
  show ?thesis
  proof (cases r)
    case (Inl e)
    with l have g: "generate_lines n w = (Inl e, w2)"
      by (simp add: kat_generation [OF assms(2-4)])
    show ?thesis
      by (simp add: main_cases [OF assms(1) g] l Inl)
  next
    case (Inr rest)
    with l have g: "generate_lines n w = (Inr (vector_line kat_key kat_pt (hex (stdout p)) # rest), w2)"
      by (simp add: kat_generation [OF assms(2-4)])
    have "join [LF] (vector_line kat_key kat_pt (hex (stdout p)) # rest) @ [LF]
        = vector_line kat_key kat_pt (hex (stdout p)) @ [LF] @ concat (map (\<lambda>l. l @ [LF]) rest)"
      by (simp add: join_terminated)
    then show ?thesis
      by (simp add: main_cases [OF assms(1) g] l Inr print_def file_write_def)
  qed
qed

lemma echo_kat_reply:
  "subprocess_run (world_with echo_process) (length (calls (world_with echo_process)))
      (openssl_args kat_key) kat_pt_bytes
     = Inr \<lparr>returncode = 0, stdout = kat_pt_bytes, stderr = []\<rparr>"
  by (simp add: world_with_def echo_process_def)

lemma hex_kat_pt_bytes: "hex kat_pt_bytes = kat_pt"
  by code_simp

theorem known_answer_ciphertext_not_compared_witness:
  "arg_n argv3 = Inr 3
   \<and> subprocess_run (world_with echo_process) (length (calls (world_with echo_process)))
        (openssl_args kat_key) kat_pt_bytes
       = Inr \<lparr>returncode = 0, stdout = kat_pt_bytes, stderr = []\<rparr>
   \<and> hex kat_pt_bytes = kat_pt
   \<and> fst (main argv3 (world_with echo_process)) = Inr ()
   \<and> (\<exists>rest. files (snd (main argv3 (world_with echo_process))) (arg_out_path argv3)
               = Some (vector_line kat_key kat_pt kat_pt @ [LF] @ rest))"
proof -
  have r: "returncode \<lparr>returncode = 0, stdout = kat_pt_bytes, stderr = []\<rparr> = 0"
    and s: "length (stdout \<lparr>returncode = 0, stdout = kat_pt_bytes, stderr = []\<rparr>) = 16"
    by (simp_all add: kat_pt_bytes_def)
  from known_answer_ciphertext_not_compared [OF arg_n_argv3 echo_kat_reply r s]
    echo_run_succeeds
  have "\<exists>rest. files (snd (main argv3 (world_with echo_process))) (arg_out_path argv3)
               = Some (vector_line kat_key kat_pt kat_pt @ [LF] @ rest)"
    by (simp add: hex_kat_pt_bytes)
  with arg_n_argv3 echo_kat_reply hex_kat_pt_bytes echo_run_succeeds show ?thesis
    by blast
qed

text \<open>
  Claim C1 fails as stated: with an oracle that returns the plaintext as the
  ciphertext, so \<open>00112233445566778899aabbccddeeff\<close> for the known-answer pair, the run
  for one vector succeeds and writes that value to the file.
\<close>
theorem wrong_known_answer_is_emitted:
  "oracle_view (subprocess_run (world_with echo_process) 0 (openssl_args kat_key) kat_pt_bytes)
     = Some kat_pt_bytes
   \<and> hex kat_pt_bytes = ''00112233445566778899aabbccddeeff''
   \<and> hex kat_pt_bytes \<noteq> ''69c4e0d86a7b0430d8cdb78070b4c55a''
   \<and> fst (main argv1 (world_with echo_process)) = Inr ()
   \<and> files (snd (main argv1 (world_with echo_process))) ''out.txt''
       = Some (''000102030405060708090a0b0c0d0e0f 00112233445566778899aabbccddeeff 00112233445566778899aabbccddeeff'' @ [LF])
   \<and> printed (snd (main argv1 (world_with echo_process))) = [''Wrote 1 vectors to out.txt'']"
  by code_simp

text \<open>
  Claim C2, as the code has it. A requested count below 1 is not rejected: generation
  is the generation for one vector. The known-answer oracle process is started, and
  when it exits with status 0 and 16 bytes and the output file can be opened, the run
  succeeds, writes the single known-answer line and reports one vector.
\<close>
theorem count_below_one_runs_as_one:
  assumes "arg_n argv = Inr n" and "n < 1"
  shows "generate_lines n w = generate_lines 1 w
       \<and> calls (snd (main argv w)) = calls w @ [(openssl_args kat_key, kat_pt_bytes)]
       \<and> (subprocess_run w (length (calls w)) (openssl_args kat_key) kat_pt_bytes = Inr p
            \<and> returncode p = 0 \<and> length (stdout p) = 16 \<and> can_open w (arg_out_path argv)
          \<longrightarrow> fst (main argv w) = Inr ()
            \<and> files (snd (main argv w)) (arg_out_path argv)
                = Some (vector_line kat_key kat_pt (hex (stdout p)) @ [LF])
            \<and> printed (snd (main argv w)) = printed w @ [''Wrote 1 vectors to '' @ arg_out_path argv])"
proof -
  let ?w1 = "w\<lparr>calls := calls w @ [(openssl_args kat_key, kat_pt_bytes)]\<rparr>"
  from assms(2) have z: "nat (n - 1) = 0" by simp
  obtain a where a: "openssl_aes128_ecb_encrypt kat_key kat_pt w = (a, ?w1)"
    by (simp add: kat_adapter)
  have g: "generate_lines n w = (case a of Inl e \<Rightarrow> Inl e | Inr ct \<Rightarrow> Inr [vector_line kat_key kat_pt ct], ?w1)"
    by (simp add: generate_lines_def a z split: sum.splits)
  have c: "calls (snd (main argv w)) = calls w @ [(openssl_args kat_key, kat_pt_bytes)]"
    by (simp add: main_cases [OF assms(1) g] print_def file_write_def split: sum.splits)
  have one: "py_str (Suc 0) = ''1''"
    by (simp add: py_str.simps hexdigits_def)
  have "fst (main argv w) = Inr ()
            \<and> files (snd (main argv w)) (arg_out_path argv)
                = Some (vector_line kat_key kat_pt (hex (stdout p)) @ [LF])
            \<and> printed (snd (main argv w)) = printed w @ [''Wrote 1 vectors to '' @ arg_out_path argv]"
    if h: "subprocess_run w (length (calls w)) (openssl_args kat_key) kat_pt_bytes = Inr p
            \<and> returncode p = 0 \<and> length (stdout p) = 16 \<and> can_open w (arg_out_path argv)"
  proof -
    from h a have "a = Inr (hex (stdout p))"
      by (simp add: kat_adapter)
    with g have g': "generate_lines n w = (Inr [vector_line kat_key kat_pt (hex (stdout p))], ?w1)"
      by simp
    from h show ?thesis
      by (simp add: main_cases [OF assms(1) g'] print_def file_write_def one)
  qed
  moreover have "generate_lines n w = generate_lines 1 w"
  proof -
    have "nat (n - 1) = nat (1 - 1)" using z by simp
    then show ?thesis by (simp only: generate_lines_def)
  qed
  ultimately show ?thesis using c by blast
qed

lemma arg_n_argv0: "arg_n argv0 = Inr 0"
  by code_simp

theorem count_below_one_runs_as_one_witness:
  "arg_n argv0 = Inr 0 \<and> (0::int) < 1
   \<and> generate_lines 0 (world_with echo_process) = generate_lines 1 (world_with echo_process)
   \<and> calls (snd (main argv0 (world_with echo_process))) = [(openssl_args kat_key, kat_pt_bytes)]
   \<and> can_open (world_with echo_process) (arg_out_path argv0)
   \<and> fst (main argv0 (world_with echo_process)) = Inr ()
   \<and> files (snd (main argv0 (world_with echo_process))) (arg_out_path argv0)
       = Some (vector_line kat_key kat_pt kat_pt @ [LF])
   \<and> printed (snd (main argv0 (world_with echo_process)))
       = [''Wrote 1 vectors to '' @ arg_out_path argv0]"
proof -
  have lt: "(0::int) < 1" by simp
  have r: "returncode \<lparr>returncode = 0, stdout = kat_pt_bytes, stderr = []\<rparr> = 0"
    and s: "length (stdout \<lparr>returncode = 0, stdout = kat_pt_bytes, stderr = []\<rparr>) = 16"
    by (simp_all add: kat_pt_bytes_def)
  have o: "can_open (world_with echo_process) (arg_out_path argv0)"
    by (simp add: world_with_def)
  have e: "calls (world_with echo_process) = []" "printed (world_with echo_process) = []"
    by (simp_all add: world_with_def)
  from count_below_one_runs_as_one [OF arg_n_argv0 lt, of "world_with echo_process"
      "\<lparr>returncode = 0, stdout = kat_pt_bytes, stderr = []\<rparr>"]
    echo_kat_reply r s o
  show ?thesis
    using arg_n_argv0 by (simp add: e hex_kat_pt_bytes)
qed

text \<open>
  Claim C2 fails as stated: for the requested count 0 the run does not fail; it starts
  one oracle process, writes the known-answer line and reports one vector.
\<close>
theorem zero_count_is_not_rejected:
  "arg_n argv0 = Inr 0
   \<and> fst (main argv0 (world_with echo_process)) = Inr ()
   \<and> length (calls (snd (main argv0 (world_with echo_process)))) = 1
   \<and> writes (snd (main argv0 (world_with echo_process)))
       = [(''out.txt'', ''000102030405060708090a0b0c0d0e0f 00112233445566778899aabbccddeeff 00112233445566778899aabbccddeeff'' @ [LF])]
   \<and> printed (snd (main argv0 (world_with echo_process))) = [''Wrote 1 vectors to out.txt'']"
  by code_simp

end
